theory Spec2Isabelle
  imports Complex_Main "HOL-Library.Word"
begin

section \<open>Strings\<close>

text \<open>
  A JavaScript string is a sequence of UTF-16 code units. \<open>String.prototype.trim\<close>
  removes, at both ends, the code units that ECMAScript calls WhiteSpace or
  LineTerminator; all of them lie in the Basic Multilingual Plane, so the test is a
  test on one code unit.
\<close>

type_synonym jsstring = "16 word list"

definition isWhiteSpace :: "16 word \<Rightarrow> bool" where
  "isWhiteSpace c \<longleftrightarrow>
     c = 0x0009 \<or> c = 0x000A \<or> c = 0x000B \<or> c = 0x000C \<or> c = 0x000D \<or>
     c = 0x0020 \<or> c = 0x00A0 \<or> c = 0x1680 \<or> (0x2000 \<le> c \<and> c \<le> 0x200A) \<or>
     c = 0x2028 \<or> c = 0x2029 \<or> c = 0x202F \<or> c = 0x205F \<or> c = 0x3000 \<or>
     c = 0xFEFF"

definition trimStart :: "jsstring \<Rightarrow> jsstring" where
  "trimStart s = dropWhile isWhiteSpace s"

definition trimEnd :: "jsstring \<Rightarrow> jsstring" where
  "trimEnd s = rev (dropWhile isWhiteSpace (rev s))"

definition trim :: "jsstring \<Rightarrow> jsstring" where
  "trim s = trimEnd (trimStart s)"

text \<open>An ASCII literal as a JavaScript string, for writing concrete inputs.\<close>

definition js :: "string \<Rightarrow> jsstring" where
  "js s = map (\<lambda>c. of_nat (of_char c)) s"

section \<open>Audio frames\<close>

text \<open>
  Modelled from the spec: \<open>createBlob\<close> of \<open>utils/audio\<close>, which the application imports
  and which is not among the sources. The spec (4.1) has it convert each sample by
  \<open>round(sample * 32767)\<close>, clamped to the signed 16-bit range [-32767, 32767]. A finite
  32-bit float is a rational and its product with 32767 is exact in double precision,
  so samples are rationals here; \<open>round\<close> is \<open>\<lfloor>x + 1/2\<rfloor>\<close>, as \<open>Math.round\<close> is.
\<close>

definition encodeSample :: "rat \<Rightarrow> int" where
  "encodeSample x = max (- 32767) (min 32767 (round (x * 32767)))"

type_synonym blob = "16 word list"

text \<open>
  Modelled from the spec: the data of the blob \<open>createBlob\<close> returns, as its signed
  16-bit samples (spec 4.1: 16-bit signed PCM; the byte order and the MIME tag play no
  part below).
\<close>

definition createBlob :: "rat list \<Rightarrow> blob" where
  "createBlob samples = map (\<lambda>x. word_of_int (encodeSample x)) samples"

section \<open>The component's state and the objects it holds\<close>

text \<open>
  Every call of \<open>startRecording\<close> creates its own stream, audio context, script
  processor and session promise, captured by the callbacks of that call. A call is
  numbered by a natural number, and the objects of call \<open>k\<close> are the values at \<open>k\<close> of
  the maps below; the four refs of the component hold such a number or \<open>null\<close>.
\<close>

datatype track_state = NoStream | Live | Ended

text \<open>
  The \<open>state\<close> of an audio context matters to the code only as closed or not:
  \<open>Running\<close> stands for \<open>'running'\<close> and \<open>'suspended'\<close> alike.
\<close>

datatype context_state = NoContext | Running | Closed

datatype processor_state = NoProcessor | Connected | Disconnected

text \<open>
  The promise returned by \<open>ai.live.connect\<close>. While it is pending it holds the blobs
  whose \<open>then\<close> reactions wait for it, in the order of their registration.
\<close>

datatype promise = NotCreated | Pending "blob list" | Fulfilled | Rejected

datatype await_state = NotStarted | AwaitMedia | AwaitSession | Finished

record state =
  isRecording :: bool
  isConnecting :: bool
  transcriptHistory :: "jsstring list"
  currentTranscript :: jsstring
  sessionRef :: "nat option"
  streamRef :: "nat option"
  audioContextRef :: "nat option"
  scriptProcessorRef :: "nat option"
  apiKey :: bool
  strictMode :: bool
  nextCall :: nat
  awaiting :: "nat \<Rightarrow> await_state"
  tracks :: "nat \<Rightarrow> track_state"
  contexts :: "nat \<Rightarrow> context_state"
  processors :: "nat \<Rightarrow> processor_state"
  sessionPromise :: "nat \<Rightarrow> promise"
  sessionClosed :: "nat \<Rightarrow> bool"
  sent :: "nat \<Rightarrow> blob list"
  alerts :: "string list"

definition initial :: "bool \<Rightarrow> state" where
  "initial key =
     \<lparr> isRecording = False, isConnecting = False, transcriptHistory = [],
       currentTranscript = [], sessionRef = None, streamRef = None,
       audioContextRef = None, scriptProcessorRef = None, apiKey = key,
       strictMode = False, nextCall = 0,
       awaiting = (\<lambda>_. NotStarted), tracks = (\<lambda>_. NoStream),
       contexts = (\<lambda>_. NoContext), processors = (\<lambda>_. NoProcessor),
       sessionPromise = (\<lambda>_. NotCreated), sessionClosed = (\<lambda>_. False),
       sent = (\<lambda>_. []), alerts = [] \<rparr>"

section \<open>stopRecording\<close>

text \<open>Lines 20-23: close the session the ref holds and clear the ref.\<close>

definition closeSession :: "state \<Rightarrow> state" where
  "closeSession s =
     (case sessionRef s of
        None \<Rightarrow> s
      | Some k \<Rightarrow> s\<lparr>sessionClosed := (sessionClosed s)(k := True), sessionRef := None\<rparr>)"

text \<open>Lines 24-27: stop the tracks of the stream the ref holds and clear the ref.\<close>

definition stopTracks :: "state \<Rightarrow> state" where
  "stopTracks s =
     (case streamRef s of
        None \<Rightarrow> s
      | Some k \<Rightarrow> s\<lparr>tracks := (tracks s)(k := Ended), streamRef := None\<rparr>)"

text \<open>Lines 28-31: disconnect the script processor the ref holds and clear the ref.\<close>

definition disconnectProcessor :: "state \<Rightarrow> state" where
  "disconnectProcessor s =
     (case scriptProcessorRef s of
        None \<Rightarrow> s
      | Some k \<Rightarrow>
          s\<lparr>processors := (processors s)(k := Disconnected), scriptProcessorRef := None\<rparr>)"

text \<open>
  Lines 32-35: close the audio context the ref holds unless it is closed already; the
  ref is cleared only when the context was closed here.
\<close>

definition closeContext :: "state \<Rightarrow> state" where
  "closeContext s =
     (case audioContextRef s of
        None \<Rightarrow> s
      | Some k \<Rightarrow>
          if contexts s k \<noteq> Closed
          then s\<lparr>contexts := (contexts s)(k := Closed), audioContextRef := None\<rparr>
          else s)"

text \<open>
  Lines 38-43: the updater passed to \<open>setCurrentTranscript\<close>. It is not a pure
  function of \<open>prev\<close>: besides returning the new value \<open>''\<close>, it calls
  \<open>setTranscriptHistory\<close>, which queues the append of \<open>prev.trim()\<close> when that is not
  empty. Its result here is the pair of the appends one call queues and the value it
  returns.
\<close>

definition currentTranscriptUpdater :: "jsstring \<Rightarrow> jsstring list \<times> jsstring" where
  "currentTranscriptUpdater prev = ((if trim prev \<noteq> [] then [trim prev] else []), [])"

text \<open>
  React applies the updater to the value it finds: once in a production build, and
  twice, on the same value, where the component is rendered under \<open>StrictMode\<close> in a
  development build (the field \<open>strictMode\<close>; the entry file that decides it is not
  among the sources). Every call queues its appends, and all of them are applied to
  the history.
\<close>

definition commitTranscript :: "state \<Rightarrow> state" where
  "commitTranscript s =
     (let prev = currentTranscript s;
          calls = (if strictMode s then [prev, prev] else [prev]);
          queued = concat (map (\<lambda>p. fst (currentTranscriptUpdater p)) calls)
      in s\<lparr>transcriptHistory := transcriptHistory s @ queued,
           currentTranscript := snd (currentTranscriptUpdater prev)\<rparr>)"

definition stopRecording :: "state \<Rightarrow> state" where
  "stopRecording s =
     commitTranscript
       ((closeContext (disconnectProcessor (stopTracks (closeSession s))))
          \<lparr>isRecording := False, isConnecting := False\<rparr>)"

section \<open>startRecording\<close>

definition alert :: "string \<Rightarrow> state \<Rightarrow> state" where
  "alert m s = s\<lparr>alerts := alerts s @ [m]\<rparr>"

definition startFailedMessage :: string where
  "startFailedMessage =
     ''Could not start recording. Please ensure you have given microphone permissions and have a valid API key.''"

text \<open>Lines 109-113: the \<open>catch\<close> block of \<open>startRecording\<close>.\<close>

definition startRecording_catch :: "state \<Rightarrow> state" where
  "startRecording_catch s = stopRecording (alert startFailedMessage s)"

text \<open>
  Lines 47-54: \<open>startRecording\<close> up to its first \<open>await\<close>. Without an API key the
  \<open>throw\<close> of line 52 is caught at once; with one, \<open>getUserMedia\<close> is called and the
  function waits for its promise.
\<close>

definition startRecording :: "state \<Rightarrow> state" where
  "startRecording s =
     (let s1 = s\<lparr>isConnecting := True, currentTranscript := [], transcriptHistory := []\<rparr>
      in if \<not> apiKey s1 then startRecording_catch s1
         else s1\<lparr>awaiting := (awaiting s1)(nextCall s1 := AwaitMedia),
                 nextCall := Suc (nextCall s1)\<rparr>)"

text \<open>
  Lines 55-108: \<open>getUserMedia\<close> has resolved for call \<open>k\<close>. The stream and a new audio
  context are stored in their refs, \<open>ai.live.connect\<close> returns the session promise, and
  the function waits for it; its continuation is the first reaction of that promise.
\<close>

definition startRecording_gotStream :: "nat \<Rightarrow> state \<Rightarrow> state" where
  "startRecording_gotStream k s =
     s\<lparr>tracks := (tracks s)(k := Live), streamRef := Some k,
       contexts := (contexts s)(k := Running), audioContextRef := Some k,
       sessionPromise := (sessionPromise s)(k := Pending []),
       awaiting := (awaiting s)(k := AwaitSession)\<rparr>"

text \<open>\<open>getUserMedia\<close> has rejected for call \<open>k\<close>: the \<open>catch\<close> block runs.\<close>

definition startRecording_noStream :: "nat \<Rightarrow> state \<Rightarrow> state" where
  "startRecording_noStream k s =
     startRecording_catch (s\<lparr>awaiting := (awaiting s)(k := Finished)\<rparr>)"

text \<open>
  The session promise of call \<open>k\<close> is fulfilled. Its reactions run in the order of
  their registration: line 108 stores the session in its ref, then each waiting
  \<open>then\<close> of line 76 passes its blob to \<open>sendRealtimeInput\<close>.
\<close>

definition startRecording_gotSession :: "nat \<Rightarrow> state \<Rightarrow> state" where
  "startRecording_gotSession k s =
     (case sessionPromise s k of
        Pending q \<Rightarrow>
          s\<lparr>sessionRef := Some k, sent := (sent s)(k := sent s k @ q),
            sessionPromise := (sessionPromise s)(k := Fulfilled),
            awaiting := (awaiting s)(k := Finished)\<rparr>
      | _ \<Rightarrow> s)"

text \<open>
  The session promise of call \<open>k\<close> is rejected: the \<open>catch\<close> block runs, and the
  waiting \<open>then\<close> reactions, which have no rejection handler, never send.
\<close>

definition startRecording_noSession :: "nat \<Rightarrow> state \<Rightarrow> state" where
  "startRecording_noSession k s =
     startRecording_catch
       (s\<lparr>sessionPromise := (sessionPromise s)(k := Rejected),
          awaiting := (awaiting s)(k := Finished)\<rparr>)"

section \<open>The callbacks of a session\<close>

text \<open>
  Lines 68-85. The script processor of call \<open>k\<close> is created, stored in its ref, given
  its \<open>onaudioprocess\<close> handler and connected; then the two flags are set.
\<close>

definition onopen :: "nat \<Rightarrow> state \<Rightarrow> state" where
  "onopen k s =
     s\<lparr>processors := (processors s)(k := Connected), scriptProcessorRef := Some k,
       isConnecting := False, isRecording := True\<rparr>"

text \<open>
  Lines 73-79. The blob is sent by a \<open>then\<close> on the session promise: at once when the
  promise is fulfilled, after the reactions registered before it when it is pending,
  and never when it is rejected.
\<close>

definition onaudioprocess :: "nat \<Rightarrow> rat list \<Rightarrow> state \<Rightarrow> state" where
  "onaudioprocess k inputData s =
     (let pcmBlob = createBlob inputData in
      case sessionPromise s k of
        Pending q \<Rightarrow> s\<lparr>sessionPromise := (sessionPromise s)(k := Pending (q @ [pcmBlob]))\<rparr>
      | Fulfilled \<Rightarrow> s\<lparr>sent := (sent s)(k := sent s k @ [pcmBlob])\<rparr>
      | _ \<Rightarrow> s)"

text \<open>
  Lines 86-92. A message is modelled by its \<open>serverContent.inputTranscription\<close>:
  \<open>None\<close> when the message has none, otherwise the \<open>text\<close> of that object, which
  is itself optional. The updater concatenates: a missing \<open>text\<close> is \<open>undefined\<close>, and
  \<open>prev + undefined\<close> appends the nine characters of that word.
\<close>

definition onmessage :: "jsstring option option \<Rightarrow> state \<Rightarrow> state" where
  "onmessage inputTranscription s =
     (case inputTranscription of
        None \<Rightarrow> s
      | Some text \<Rightarrow>
          s\<lparr>currentTranscript :=
              currentTranscript s @ (case text of None \<Rightarrow> js ''undefined'' | Some t \<Rightarrow> t)\<rparr>)"

definition apiErrorMessage :: "string \<Rightarrow> string" where
  "apiErrorMessage m = ''An API error occurred: '' @ m @ ''. Please try again.''"

text \<open>Lines 93-97.\<close>

definition onerror :: "string \<Rightarrow> state \<Rightarrow> state" where
  "onerror m s = stopRecording (alert (apiErrorMessage m) s)"

text \<open>Lines 98-100.\<close>

definition onclose :: "state \<Rightarrow> state" where
  "onclose s = stopRecording s"

section \<open>The button and the event loop\<close>

text \<open>Lines 116-122.\<close>

definition handleToggleRecording :: "state \<Rightarrow> state" where
  "handleToggleRecording s =
     (if isRecording s \<or> isConnecting s then stopRecording s else startRecording s)"

text \<open>
  What the environment can deliver to the component. Every handler runs to completion
  before the next event. An event is delivered only where its handler exists: the
  button is disabled while \<open>isConnecting\<close> (line 167), a promise settles once, the
  callbacks of a session exist once \<open>connect\<close> was called, \<open>onopen\<close> fires at most once,
  and \<open>onaudioprocess\<close> exists once \<open>onopen\<close> has assigned it.
\<close>

datatype event =
    Click
  | Unmount
  | StreamResolved nat
  | StreamRejected nat
  | SessionResolved nat
  | SessionRejected nat
  | Open nat
  | Message nat "jsstring option option"
  | Error nat string
  | Close nat
  | AudioProcess nat "rat list"

fun step :: "event \<Rightarrow> state \<Rightarrow> state option" where
  "step Click s = (if isConnecting s then None else Some (handleToggleRecording s))"
| "step Unmount s = Some (stopRecording s)"
| "step (StreamResolved k) s =
     (if awaiting s k = AwaitMedia then Some (startRecording_gotStream k s) else None)"
| "step (StreamRejected k) s =
     (if awaiting s k = AwaitMedia then Some (startRecording_noStream k s) else None)"
| "step (SessionResolved k) s =
     (if awaiting s k = AwaitSession then Some (startRecording_gotSession k s) else None)"
| "step (SessionRejected k) s =
     (if awaiting s k = AwaitSession then Some (startRecording_noSession k s) else None)"
| "step (Open k) s =
     (if sessionPromise s k \<noteq> NotCreated \<and> processors s k = NoProcessor
      then Some (onopen k s) else None)"
| "step (Message k m) s =
     (if sessionPromise s k \<noteq> NotCreated then Some (onmessage m s) else None)"
| "step (Error k m) s =
     (if sessionPromise s k \<noteq> NotCreated then Some (onerror m s) else None)"
| "step (Close k) s =
     (if sessionPromise s k \<noteq> NotCreated then Some (onclose s) else None)"
| "step (AudioProcess k inputData) s =
     (if processors s k \<noteq> NoProcessor then Some (onaudioprocess k inputData s) else None)"

fun run :: "event list \<Rightarrow> state \<Rightarrow> state option" where
  "run [] s = Some s"
| "run (e # es) s = (case step e s of None \<Rightarrow> None | Some s' \<Rightarrow> run es s')"

section \<open>Auxiliary definitions\<close>

text \<open>
  Abbreviations for the proofs below: the update a cleanup step makes to the object its
  ref holds, the audio context ref after \<open>closeContext\<close>, and the history after the
  commit of a given in-progress string, with the updater called twice or once.
\<close>

definition updAt :: "nat option \<Rightarrow> 'a \<Rightarrow> (nat \<Rightarrow> 'a) \<Rightarrow> nat \<Rightarrow> 'a" where
  "updAt r v f = (case r of None \<Rightarrow> f | Some k \<Rightarrow> f(k := v))"

definition refAfterClose :: "nat option \<Rightarrow> (nat \<Rightarrow> context_state) \<Rightarrow> nat option" where
  "refAfterClose r cs =
     (case r of None \<Rightarrow> None | Some k \<Rightarrow> if cs k \<noteq> Closed then None else Some k)"

definition committed :: "bool \<Rightarrow> jsstring list \<Rightarrow> jsstring \<Rightarrow> jsstring list" where
  "committed strict h c =
     (if trim c \<noteq> [] then h @ (if strict then [trim c, trim c] else [trim c]) else h)"

text \<open>The component holds no session, stream, processor or audio context.\<close>

definition holdsNothing :: "state \<Rightarrow> bool" where
  "holdsNothing s \<longleftrightarrow>
     sessionRef s = None \<and> streamRef s = None \<and> scriptProcessorRef s = None \<and>
     audioContextRef s = None"

text \<open>The sample buffers that the script processor of call \<open>k\<close> delivers in a run.\<close>

fun frames :: "nat \<Rightarrow> event list \<Rightarrow> rat list list" where
  "frames k [] = []"
| "frames k (AudioProcess j inputData # es) =
     (if j = k then inputData # frames k es else frames k es)"
| "frames k (_ # es) = frames k es"

text \<open>
  Two concrete states: the state of a first recording that streams (the button
  pressed, the microphone granted, the connection opened and the session promise
  fulfilled), and an idle state whose history holds an utterance of an earlier session.
\<close>

definition streamingState :: state where
  "streamingState =
     startRecording_gotSession 0 (onopen 0 (startRecording_gotStream 0 (startRecording (initial True))))"

definition oldHistoryState :: state where
  "oldHistoryState = (initial True)\<lparr>transcriptHistory := [js ''old'']\<rparr>"

text \<open>
  What the \<open>catch\<close> block of \<open>startRecording\<close> leaves of a state \<open>s\<close>: the idle
  flags, no session, stream or processor held, the objects that were held closed,
  stopped and disconnected, the alert shown, and the text in progress committed.
\<close>

definition unwound :: "state \<Rightarrow> state \<Rightarrow> bool" where
  "unwound s s' \<longleftrightarrow>
     \<not> isRecording s' \<and> \<not> isConnecting s' \<and>
     sessionRef s' = None \<and> streamRef s' = None \<and> scriptProcessorRef s' = None \<and>
     sessionClosed s' = updAt (sessionRef s) True (sessionClosed s) \<and>
     tracks s' = updAt (streamRef s) Ended (tracks s) \<and>
     processors s' = updAt (scriptProcessorRef s) Disconnected (processors s) \<and>
     contexts s' = updAt (audioContextRef s) Closed (contexts s) \<and>
     alerts s' = alerts s @ [startFailedMessage] \<and>
     currentTranscript s' = [] \<and>
     transcriptHistory s' = committed (strictMode s) (transcriptHistory s) (currentTranscript s)"

text \<open>
  The state of a first recording whose connection has opened while its session
  promise is still pending.
\<close>

definition openedState :: state where
  "openedState = onopen 0 (startRecording_gotStream 0 (startRecording (initial True)))"

text \<open>
  Call \<open>k\<close> waits for its session promise, which holds the blobs \<open>q\<close>, and has sent
  \<open>out\<close>; and call \<open>k\<close> has its session and has sent \<open>out\<close>.
\<close>

definition pendingWith :: "nat \<Rightarrow> blob list \<Rightarrow> blob list \<Rightarrow> state \<Rightarrow> bool" where
  "pendingWith k q out s \<longleftrightarrow>
     k < nextCall s \<and> awaiting s k = AwaitSession \<and> sessionPromise s k = Pending q \<and>
     sent s k = out"

definition fulfilledWith :: "nat \<Rightarrow> blob list \<Rightarrow> state \<Rightarrow> bool" where
  "fulfilledWith k out s \<longleftrightarrow>
     k < nextCall s \<and> awaiting s k = Finished \<and> sessionPromise s k = Fulfilled \<and>
     sent s k = out"

text \<open>
  The script processor the ref holds is connected, and the component records only
  while the ref holds one.
\<close>

definition attached :: "state \<Rightarrow> bool" where
  "attached s \<longleftrightarrow>
     (\<forall>k. scriptProcessorRef s = Some k \<longrightarrow> processors s k = Connected) \<and>
     (isRecording s \<longrightarrow> scriptProcessorRef s \<noteq> None)"

section \<open>stopRecording, field by field\<close>

lemma trim_Nil: "trim [] = []"
  by (simp add: trim_def trimStart_def trimEnd_def)

lemma closeSession_eq:
  "closeSession s =
     s\<lparr>sessionClosed := updAt (sessionRef s) True (sessionClosed s), sessionRef := None\<rparr>"
  by (simp add: closeSession_def updAt_def split: option.splits)

lemma stopTracks_eq:
  "stopTracks s = s\<lparr>tracks := updAt (streamRef s) Ended (tracks s), streamRef := None\<rparr>"
  by (simp add: stopTracks_def updAt_def split: option.splits)

lemma disconnectProcessor_eq:
  "disconnectProcessor s =
     s\<lparr>processors := updAt (scriptProcessorRef s) Disconnected (processors s),
       scriptProcessorRef := None\<rparr>"
  by (simp add: disconnectProcessor_def updAt_def split: option.splits)

lemma closeContext_eq:
  "closeContext s =
     s\<lparr>contexts := updAt (audioContextRef s) Closed (contexts s),
       audioContextRef := refAfterClose (audioContextRef s) (contexts s)\<rparr>"
  by (simp add: closeContext_def updAt_def refAfterClose_def fun_upd_idem
      split: option.splits)

lemma commitTranscript_eq:
  "commitTranscript s =
     s\<lparr>transcriptHistory := committed (strictMode s) (transcriptHistory s) (currentTranscript s),
       currentTranscript := []\<rparr>"
  by (simp add: commitTranscript_def currentTranscriptUpdater_def committed_def Let_def)

lemma stopRecording_eq:
  "stopRecording s =
     s\<lparr>sessionClosed := updAt (sessionRef s) True (sessionClosed s),
       sessionRef := None,
       tracks := updAt (streamRef s) Ended (tracks s),
       streamRef := None,
       processors := updAt (scriptProcessorRef s) Disconnected (processors s),
       scriptProcessorRef := None,
       contexts := updAt (audioContextRef s) Closed (contexts s),
       audioContextRef := refAfterClose (audioContextRef s) (contexts s),
       isRecording := False, isConnecting := False,
       transcriptHistory := committed (strictMode s) (transcriptHistory s) (currentTranscript s),
       currentTranscript := []\<rparr>"
  unfolding stopRecording_def
  by (simp add: closeSession_eq stopTracks_eq disconnectProcessor_eq closeContext_eq
      commitTranscript_eq)

lemma stopRecording_fields:
  "isRecording (stopRecording s) = False"
  "isConnecting (stopRecording s) = False"
  "currentTranscript (stopRecording s) = []"
  "transcriptHistory (stopRecording s) = committed (strictMode s) (transcriptHistory s) (currentTranscript s)"
  "sessionRef (stopRecording s) = None"
  "streamRef (stopRecording s) = None"
  "scriptProcessorRef (stopRecording s) = None"
  "audioContextRef (stopRecording s) = refAfterClose (audioContextRef s) (contexts s)"
  "apiKey (stopRecording s) = apiKey s"
  "nextCall (stopRecording s) = nextCall s"
  "awaiting (stopRecording s) = awaiting s"
  "sessionPromise (stopRecording s) = sessionPromise s"
  "sent (stopRecording s) = sent s"
  "alerts (stopRecording s) = alerts s"
  "tracks (stopRecording s) = updAt (streamRef s) Ended (tracks s)"
  "processors (stopRecording s) = updAt (scriptProcessorRef s) Disconnected (processors s)"
  "contexts (stopRecording s) = updAt (audioContextRef s) Closed (contexts s)"
  "sessionClosed (stopRecording s) = updAt (sessionRef s) True (sessionClosed s)"
  by (simp_all add: stopRecording_eq)

lemma stopRecording_twice: "stopRecording (stopRecording s) = stopRecording s"
  by (subst (1) stopRecording_eq)
     (simp add: stopRecording_fields trim_Nil updAt_def refAfterClose_def committed_def
        split: option.splits)

lemma stopRecording_holdsNothing:
  assumes "holdsNothing s" "\<not> isRecording s" "\<not> isConnecting s"
  shows "stopRecording s = commitTranscript s"
proof -
  have "stopRecording s = (commitTranscript s)\<lparr>isRecording := False, isConnecting := False\<rparr>"
    using assms(1)
    by (subst stopRecording_eq)
       (simp add: holdsNothing_def updAt_def refAfterClose_def commitTranscript_eq)
  also have "\<dots> = commitTranscript s"
    using assms(2,3) by (simp add: commitTranscript_eq)
  finally show ?thesis .
qed

section \<open>The transcript\<close>

text \<open>
  What every run of the stop path (\<open>stopRecording\<close>, which is also the whole of the
  \<open>onclose\<close> handler and the end of the \<open>onerror\<close> handler) does to the transcript:
  the in-progress string is cleared, and its trimmed value, when not empty, is appended
  to the history as many times as React calls the updater: once in a production
  build, twice under \<open>StrictMode\<close>.
\<close>

lemma stopRecording_commit:
  "currentTranscript (stopRecording s) = [] \<and>
   transcriptHistory (stopRecording s) =
     transcriptHistory s @
       replicate (if trim (currentTranscript s) = [] then 0 else if strictMode s then 2 else 1)
         (trim (currentTranscript s)) \<and>
   onclose s = stopRecording s \<and>
   currentTranscript (onerror m s) = currentTranscript (stopRecording s) \<and>
   transcriptHistory (onerror m s) = transcriptHistory (stopRecording s)"
  by (simp add: stopRecording_fields committed_def onclose_def onerror_def alert_def
      numeral_2_eq_2)

text \<open>
  C1. The code breaks the invariant where the updater is called twice. In a first
  recording under \<open>StrictMode\<close>, with the one delta \<open>" hi "\<close> received and the session
  then closed by the service, the one close event appends the utterance to the history
  twice; the same run in a production build appends it once.
\<close>

theorem close_commits_twice_under_StrictMode:
  "map_option transcriptHistory
     (run [Click, StreamResolved 0, Open 0, SessionResolved 0,
           Message 0 (Some (Some (js '' hi ''))), Close 0]
        ((initial True)\<lparr>strictMode := True\<rparr>)) = Some [js ''hi'', js ''hi''] \<and>
   map_option currentTranscript
     (run [Click, StreamResolved 0, Open 0, SessionResolved 0,
           Message 0 (Some (Some (js '' hi ''))), Close 0]
        ((initial True)\<lparr>strictMode := True\<rparr>)) = Some [] \<and>
   map_option transcriptHistory
     (run [Click, StreamResolved 0, Open 0, SessionResolved 0,
           Message 0 (Some (Some (js '' hi ''))), Close 0]
        (initial True)) = Some [js ''hi'']"
  by code_simp

text \<open>
  C2. \<open>stopRecording\<close> is idempotent: a second call in a row changes nothing. A call
  in the idle state that holds no session, stream, processor or audio context does
  nothing but the commit of the transcript, and nothing at all when no text is in
  progress, as in the state a first call leaves. The function is total: none of its
  steps can raise. Each cleanup step acts on the object of its own ref alone, whatever
  the other refs hold.
\<close>

theorem stopRecording_idempotent:
  "stopRecording (stopRecording s) = stopRecording s \<and>
   (holdsNothing s \<and> \<not> isRecording s \<and> \<not> isConnecting s \<longrightarrow>
      stopRecording s = commitTranscript s \<and>
      (currentTranscript s = [] \<longrightarrow> stopRecording s = s)) \<and>
   sessionRef (stopRecording s) = None \<and>
   streamRef (stopRecording s) = None \<and>
   scriptProcessorRef (stopRecording s) = None \<and>
   sessionClosed (stopRecording s) =
     (case sessionRef s of None \<Rightarrow> sessionClosed s | Some k \<Rightarrow> (sessionClosed s)(k := True)) \<and>
   tracks (stopRecording s) =
     (case streamRef s of None \<Rightarrow> tracks s | Some k \<Rightarrow> (tracks s)(k := Ended)) \<and>
   processors (stopRecording s) =
     (case scriptProcessorRef s of None \<Rightarrow> processors s
      | Some k \<Rightarrow> (processors s)(k := Disconnected)) \<and>
   contexts (stopRecording s) =
     (case audioContextRef s of None \<Rightarrow> contexts s | Some k \<Rightarrow> (contexts s)(k := Closed))"
proof -
  have "stopRecording s = s"
    if "holdsNothing s" "\<not> isRecording s" "\<not> isConnecting s" "currentTranscript s = []"
    using that stopRecording_holdsNothing [of s]
    by (simp add: commitTranscript_eq committed_def trim_Nil)
  moreover have "stopRecording s = commitTranscript s"
    if "holdsNothing s" "\<not> isRecording s" "\<not> isConnecting s"
    using that by (rule stopRecording_holdsNothing)
  ultimately show ?thesis
    by (simp add: stopRecording_twice stopRecording_fields updAt_def)
qed

theorem stopRecording_idempotent_witness:
  "stopRecording (initial True) = initial True \<and>
   tracks (stopRecording ((initial True)\<lparr>isConnecting := True, streamRef := Some 0,
      tracks := (\<lambda>_. NoStream)(0 := Live)\<rparr>)) 0 = Ended \<and>
   stopRecording (stopRecording ((initial True)\<lparr>isConnecting := True, streamRef := Some 0,
      tracks := (\<lambda>_. NoStream)(0 := Live)\<rparr>)) =
   stopRecording ((initial True)\<lparr>isConnecting := True, streamRef := Some 0,
      tracks := (\<lambda>_. NoStream)(0 := Live)\<rparr>)"
proof -
  have h: "holdsNothing (initial True) \<and> \<not> isRecording (initial True) \<and>
      \<not> isConnecting (initial True)" "currentTranscript (initial True) = []"
    by (simp_all add: initial_def holdsNothing_def)
  with stopRecording_idempotent [of "initial True"]
  have a: "stopRecording (initial True) = initial True"
    by blast
  let ?s = "(initial True)\<lparr>isConnecting := True, streamRef := Some 0,
      tracks := (\<lambda>_. NoStream)(0 := Live)\<rparr>"
  note t = stopRecording_idempotent [of ?s]
  from t have b: "stopRecording (stopRecording ?s) = stopRecording ?s"
    by blast
  from t have "tracks (stopRecording ?s) =
      (case streamRef ?s of None \<Rightarrow> tracks ?s | Some k \<Rightarrow> (tracks ?s)(k := Ended))"
    by blast
  then have c: "tracks (stopRecording ?s) 0 = Ended"
    by simp
  from a b c show ?thesis by blast
qed

lemma fold_onmessage:
  "fold (\<lambda>d. onmessage (Some (Some d))) ds s =
     s\<lparr>currentTranscript := currentTranscript s @ concat ds\<rparr>"
  by (induction ds arbitrary: s) (simp_all add: onmessage_def)

text \<open>
  Starting with no text in progress, a sequence of transcription deltas followed by
  one commit appends the trimmed concatenation of the deltas, in their order of
  arrival, or nothing when that is empty: once where React calls the updater once,
  and twice under \<open>StrictMode\<close>.
\<close>

lemma append_then_commit:
  assumes "currentTranscript s = []"
  shows "transcriptHistory (stopRecording (fold (\<lambda>d. onmessage (Some (Some d))) ds s)) =
           transcriptHistory s @
             replicate (if trim (concat ds) = [] then 0 else if strictMode s then 2 else 1)
               (trim (concat ds)) \<and>
         currentTranscript (stopRecording (fold (\<lambda>d. onmessage (Some (Some d))) ds s)) = []"
  using assms
  by (simp add: fold_onmessage stopRecording_fields committed_def numeral_2_eq_2)

text \<open>
  C5. The code breaks the bound where the updater is called twice. Under
  \<open>StrictMode\<close>, the deltas \<open>"Hel"\<close>, \<open>"lo "\<close>, \<open>"world"\<close> appended to an empty
  transcript and followed by one commit make the history grow by two elements, both
  the trimmed concatenation; in a production build it grows by that one element.
\<close>

theorem append_then_commit_twice_under_StrictMode:
  "transcriptHistory
     (stopRecording (fold (\<lambda>d. onmessage (Some (Some d))) [js ''Hel'', js ''lo '', js ''world'']
        ((initial True)\<lparr>strictMode := True\<rparr>))) = [js ''Hello world'', js ''Hello world''] \<and>
   length (transcriptHistory
     (stopRecording (fold (\<lambda>d. onmessage (Some (Some d))) [js ''Hel'', js ''lo '', js ''world'']
        ((initial True)\<lparr>strictMode := True\<rparr>)))) =
     length (transcriptHistory ((initial True)\<lparr>strictMode := True\<rparr>)) + 2 \<and>
   transcriptHistory
     (stopRecording (fold (\<lambda>d. onmessage (Some (Some d))) [js ''Hel'', js ''lo '', js ''world'']
        (initial True))) = [js ''Hello world'']"
  by code_simp

section \<open>Starting, failing and the remote events\<close>

lemma stopRecording_alert: "stopRecording (alert m s) = alert m (stopRecording s)"
  by (simp add: stopRecording_eq alert_def)

lemma startRecording_catch_eq: "startRecording_catch s = alert startFailedMessage (stopRecording s)"
  by (simp add: startRecording_catch_def stopRecording_alert)

lemma alert_fields:
  "isRecording (alert m s) = isRecording s"
  "isConnecting (alert m s) = isConnecting s"
  "currentTranscript (alert m s) = currentTranscript s"
  "transcriptHistory (alert m s) = transcriptHistory s"
  "sessionRef (alert m s) = sessionRef s"
  "streamRef (alert m s) = streamRef s"
  "scriptProcessorRef (alert m s) = scriptProcessorRef s"
  "audioContextRef (alert m s) = audioContextRef s"
  "apiKey (alert m s) = apiKey s"
  "nextCall (alert m s) = nextCall s"
  "awaiting (alert m s) = awaiting s"
  "sessionPromise (alert m s) = sessionPromise s"
  "sent (alert m s) = sent s"
  "alerts (alert m s) = alerts s @ [m]"
  "tracks (alert m s) = tracks s"
  "processors (alert m s) = processors s"
  "contexts (alert m s) = contexts s"
  "sessionClosed (alert m s) = sessionClosed s"
  by (simp_all add: alert_def)

lemma startRecording_transcript:
  "transcriptHistory (startRecording s) = []"
  "currentTranscript (startRecording s) = []"
  by (simp_all add: startRecording_def Let_def startRecording_catch_eq alert_fields
      stopRecording_fields committed_def trim_Nil)

text \<open>
  C9. Every call of \<open>startRecording\<close>, with or without an API key, leaves both the
  in-progress string and the history empty at its first suspension point (or at its
  end, when it fails at once), and its result does not depend on the transcript of
  the state it was called in: nothing of an earlier session survives it. At that
  suspension point the call only waits for the microphone: no stream, audio context
  or session promise has been created and no ref has been set.
\<close>

theorem startRecording_resets_transcript:
  "transcriptHistory (startRecording s) = [] \<and>
   currentTranscript (startRecording s) = [] \<and>
   startRecording (s\<lparr>transcriptHistory := h, currentTranscript := c\<rparr>) = startRecording s \<and>
   (apiKey s \<longrightarrow>
      awaiting (startRecording s) (nextCall s) = AwaitMedia \<and>
      tracks (startRecording s) = tracks s \<and> contexts (startRecording s) = contexts s \<and>
      sessionPromise (startRecording s) = sessionPromise s \<and>
      streamRef (startRecording s) = streamRef s \<and>
      sessionRef (startRecording s) = sessionRef s)"
proof -
  have "startRecording (s\<lparr>transcriptHistory := h, currentTranscript := c\<rparr>) = startRecording s"
    by (simp add: startRecording_def)
  moreover have "awaiting (startRecording s) (nextCall s) = AwaitMedia \<and>
      tracks (startRecording s) = tracks s \<and> contexts (startRecording s) = contexts s \<and>
      sessionPromise (startRecording s) = sessionPromise s \<and>
      streamRef (startRecording s) = streamRef s \<and>
      sessionRef (startRecording s) = sessionRef s" if "apiKey s"
    using that by (simp add: startRecording_def)
  ultimately show ?thesis by (simp add: startRecording_transcript)
qed

theorem startRecording_resets_transcript_witness:
  "apiKey oldHistoryState \<and>
   awaiting (startRecording oldHistoryState) (nextCall oldHistoryState) = AwaitMedia \<and>
   transcriptHistory (startRecording oldHistoryState) = [] \<and>
   currentTranscript (startRecording oldHistoryState) = [] \<and>
   transcriptHistory (startRecording ((initial False)\<lparr>transcriptHistory := [js ''old'']\<rparr>)) = []"
  using startRecording_resets_transcript [of oldHistoryState]
    startRecording_resets_transcript [of "(initial False)\<lparr>transcriptHistory := [js ''old'']\<rparr>"]
  by (simp add: oldHistoryState_def initial_def)

text \<open>
  C10. The \<open>onerror\<close> handler is the \<open>onclose\<close> handler, which is \<open>stopRecording\<close>,
  together with one alert: both leave the component idle, and in the state either
  leaves, a click on the button is accepted and calls \<open>startRecording\<close>.
\<close>

theorem onerror_like_onclose:
  "onerror m s = alert (apiErrorMessage m) (onclose s) \<and>
   onclose s = stopRecording s \<and>
   alerts (onerror m s) = alerts s @ [apiErrorMessage m] \<and>
   alerts (onclose s) = alerts s \<and>
   \<not> isRecording (onerror m s) \<and> \<not> isConnecting (onerror m s) \<and>
   \<not> isRecording (onclose s) \<and> \<not> isConnecting (onclose s) \<and>
   step Click (onerror m s) = Some (startRecording (onerror m s)) \<and>
   step Click (onclose s) = Some (startRecording (onclose s))"
  by (simp add: onerror_def onclose_def stopRecording_alert alert_fields stopRecording_fields
      handleToggleRecording_def)

theorem onerror_like_onclose_witness:
  "alerts (onerror ''lost'' streamingState) = [apiErrorMessage ''lost''] \<and>
   alerts (onclose streamingState) = [] \<and>
   \<not> isRecording (onerror ''lost'' streamingState) \<and>
   \<not> isRecording (onclose streamingState)"
proof -
  have "alerts streamingState = []"
    by (simp add: streamingState_def initial_def startRecording_def
        startRecording_gotStream_def onopen_def startRecording_gotSession_def)
  moreover
  note t = onerror_like_onclose [of "''lost''" streamingState]
  from t have "alerts (onerror ''lost'' streamingState) =
      alerts streamingState @ [apiErrorMessage ''lost'']"
    by blast
  moreover from t have "alerts (onclose streamingState) = alerts streamingState"
    by blast
  moreover from t have "\<not> isRecording (onerror ''lost'' streamingState)"
    "\<not> isRecording (onclose streamingState)"
    by blast+
  ultimately show ?thesis by simp
qed

lemma run_streaming:
  "run [Click, StreamResolved 0, Open 0, SessionResolved 0] (initial True) = Some streamingState"
  by (simp add: streamingState_def handleToggleRecording_def initial_def startRecording_def
      startRecording_gotStream_def onopen_def startRecording_gotSession_def)

lemma run_opened: "run [Click, StreamResolved 0, Open 0] (initial True) = Some openedState"
  by (simp add: openedState_def handleToggleRecording_def initial_def startRecording_def
      startRecording_gotStream_def)

lemma startRecording_catch_fields:
  "isRecording (startRecording_catch s) = False"
  "isConnecting (startRecording_catch s) = False"
  "sessionRef (startRecording_catch s) = None"
  "streamRef (startRecording_catch s) = None"
  "scriptProcessorRef (startRecording_catch s) = None"
  "alerts (startRecording_catch s) = alerts s @ [startFailedMessage]"
  "currentTranscript (startRecording_catch s) = []"
  "transcriptHistory (startRecording_catch s) = committed (strictMode s) (transcriptHistory s) (currentTranscript s)"
  "sessionClosed (startRecording_catch s) = updAt (sessionRef s) True (sessionClosed s)"
  "tracks (startRecording_catch s) = updAt (streamRef s) Ended (tracks s)"
  "processors (startRecording_catch s) = updAt (scriptProcessorRef s) Disconnected (processors s)"
  "contexts (startRecording_catch s) = updAt (audioContextRef s) Closed (contexts s)"
  "nextCall (startRecording_catch s) = nextCall s"
  "awaiting (startRecording_catch s) = awaiting s"
  "sessionPromise (startRecording_catch s) = sessionPromise s"
  "sent (startRecording_catch s) = sent s"
  by (simp_all add: startRecording_catch_eq alert_fields stopRecording_fields)

text \<open>
  C3, as stated, fails: \<open>startRecording\<close> has no guard of its own, and in the
  streaming state it changes the state and begins another call; a click on the
  button in that state changes the state as well.
\<close>

theorem start_not_idle_counterexample:
  "isRecording streamingState \<and>
   startRecording streamingState \<noteq> streamingState \<and>
   nextCall (startRecording streamingState) \<noteq> nextCall streamingState \<and>
   handleToggleRecording streamingState \<noteq> streamingState"
proof -
  have a: "isRecording streamingState" "\<not> isConnecting streamingState"
    "apiKey streamingState"
    by (simp_all add: streamingState_def initial_def startRecording_def
        startRecording_gotStream_def onopen_def startRecording_gotSession_def)
  have b: "isConnecting (startRecording streamingState)"
    "nextCall (startRecording streamingState) = Suc (nextCall streamingState)"
    using a by (simp_all add: startRecording_def)
  have c: "\<not> isRecording (handleToggleRecording streamingState)"
    using a by (simp add: handleToggleRecording_def stopRecording_fields)
  from a b c show ?thesis by auto
qed

text \<open>
  C3, amended. The guard is in \<open>handleToggleRecording\<close>, the only caller of
  \<open>startRecording\<close>: while the component records or connects, it runs \<open>stopRecording\<close>
  instead, so no further call is begun, no session promise is created and no alert is
  shown, and the component becomes idle; while it connects, the button is disabled and
  the click is not delivered at all.
\<close>

theorem toggle_not_idle_stops:
  assumes "isRecording s \<or> isConnecting s"
  shows "handleToggleRecording s = stopRecording s \<and>
         nextCall (handleToggleRecording s) = nextCall s \<and>
         awaiting (handleToggleRecording s) = awaiting s \<and>
         sessionPromise (handleToggleRecording s) = sessionPromise s \<and>
         alerts (handleToggleRecording s) = alerts s \<and>
         \<not> isRecording (handleToggleRecording s) \<and>
         \<not> isConnecting (handleToggleRecording s) \<and>
         (isConnecting s \<longrightarrow> step Click s = None)"
  using assms by (simp add: handleToggleRecording_def stopRecording_fields)

theorem toggle_not_idle_stops_witness:
  "(isRecording streamingState \<or> isConnecting streamingState) \<and>
   handleToggleRecording streamingState = stopRecording streamingState \<and>
   nextCall (handleToggleRecording streamingState) = 1 \<and>
   sessionRef (handleToggleRecording streamingState) = None"
proof -
  have h: "isRecording streamingState \<or> isConnecting streamingState"
    by (simp add: streamingState_def initial_def startRecording_def
        startRecording_gotStream_def onopen_def startRecording_gotSession_def)
  have n: "nextCall streamingState = 1"
    by (simp add: streamingState_def initial_def startRecording_def
        startRecording_gotStream_def onopen_def startRecording_gotSession_def)
  show ?thesis
    using h n toggle_not_idle_stops [OF h] by (simp add: stopRecording_fields)
qed

text \<open>
  C4, as stated, fails: after a start that fails at the microphone, the history of
  an earlier session is gone.
\<close>

theorem failed_start_history_counterexample:
  "run [Click, StreamRejected 0] oldHistoryState \<noteq> None \<and>
   map_option transcriptHistory (run [Click, StreamRejected 0] oldHistoryState) = Some [] \<and>
   map_option transcriptHistory (run [Click, StreamRejected 0] oldHistoryState)
     \<noteq> Some (transcriptHistory oldHistoryState)"
  by (simp add: oldHistoryState_def initial_def handleToggleRecording_def startRecording_def
      startRecording_noStream_def startRecording_catch_fields committed_def trim_Nil js_def)

lemma unwound_catch: "unwound s (startRecording_catch s)"
  by (simp add: unwound_def startRecording_catch_fields)

text \<open>
  C4, amended. In whatever state the \<open>try\<close> block of \<open>startRecording\<close> fails, and
  so at each of its failing steps (no API key, the microphone refused, the session
  promise rejected), the \<open>catch\<close> block shows the alert and runs
  the whole of \<open>stopRecording\<close>: the component is idle, it holds no session, stream or
  processor, and what it held is closed, stopped and disconnected. The history is not
  kept: \<open>startRecording\<close> has emptied it, and after a start from the idle state that
  fails at the microphone it is empty and no session promise was created.
\<close>

theorem failed_start_unwinds:
  "unwound s (startRecording_catch s) \<and>
   unwound s (startRecording_noStream k s) \<and>
   unwound s (startRecording_noSession k s) \<and>
   (\<not> apiKey s \<longrightarrow>
      unwound (s\<lparr>isConnecting := True, currentTranscript := [], transcriptHistory := []\<rparr>)
        (startRecording s) \<and> transcriptHistory (startRecording s) = []) \<and>
   (\<not> isRecording s \<and> \<not> isConnecting s \<and> apiKey s \<longrightarrow>
      (\<exists>s'. run [Click, StreamRejected (nextCall s)] s = Some s' \<and>
         \<not> isRecording s' \<and> \<not> isConnecting s' \<and> sessionRef s' = None \<and>
         sessionPromise s' = sessionPromise s \<and>
         alerts s' = alerts s @ [startFailedMessage] \<and>
         transcriptHistory s' = [] \<and> currentTranscript s' = []))"
proof -
  have a: "unwound s (startRecording_noStream k s)"
    using unwound_catch [of "s\<lparr>awaiting := (awaiting s)(k := Finished)\<rparr>"]
    by (simp add: startRecording_noStream_def unwound_def)
  have b: "unwound s (startRecording_noSession k s)"
    using unwound_catch [of "s\<lparr>sessionPromise := (sessionPromise s)(k := Rejected),
          awaiting := (awaiting s)(k := Finished)\<rparr>"]
    by (simp add: startRecording_noSession_def unwound_def)
  have c: "unwound (s\<lparr>isConnecting := True, currentTranscript := [], transcriptHistory := []\<rparr>)
        (startRecording s) \<and> transcriptHistory (startRecording s) = []" if "\<not> apiKey s"
    using that
      unwound_catch [of "s\<lparr>isConnecting := True, currentTranscript := [], transcriptHistory := []\<rparr>"]
    by (simp add: startRecording_def unwound_def committed_def trim_Nil)
  have d: "\<exists>s'. run [Click, StreamRejected (nextCall s)] s = Some s' \<and>
         \<not> isRecording s' \<and> \<not> isConnecting s' \<and> sessionRef s' = None \<and>
         sessionPromise s' = sessionPromise s \<and>
         alerts s' = alerts s @ [startFailedMessage] \<and>
         transcriptHistory s' = [] \<and> currentTranscript s' = []"
    if "\<not> isRecording s" "\<not> isConnecting s" "apiKey s"
    using that
    by (simp add: handleToggleRecording_def startRecording_def startRecording_noStream_def
        startRecording_catch_fields committed_def trim_Nil)
  from unwound_catch [of s] a b c d show ?thesis by blast
qed

theorem failed_start_unwinds_witness:
  "\<not> isRecording oldHistoryState \<and> \<not> isConnecting oldHistoryState \<and> apiKey oldHistoryState \<and>
   nextCall oldHistoryState = 0 \<and>
   (\<exists>s'. run [Click, StreamRejected 0] oldHistoryState = Some s' \<and>
      \<not> isConnecting s' \<and> alerts s' = [startFailedMessage] \<and> transcriptHistory s' = [])"
proof -
  have h: "\<not> isRecording oldHistoryState" "\<not> isConnecting oldHistoryState"
    "apiKey oldHistoryState" "nextCall oldHistoryState = 0" "alerts oldHistoryState = []"
    by (simp_all add: oldHistoryState_def initial_def)
  show ?thesis
    using h failed_start_unwinds [of oldHistoryState 0]
    by (simp del: run.simps) blast
qed

section \<open>Frames and the session promise\<close>

lemma run_append:
  "run (es @ es') s = (case run es s of None \<Rightarrow> None | Some s' \<Rightarrow> run es' s')"
  by (induction es arbitrary: s) (simp_all split: option.splits)

lemma startRecording_call_fields:
  "sessionPromise (startRecording s) = sessionPromise s"
  "sent (startRecording s) = sent s"
  "nextCall (startRecording s) = (if apiKey s then Suc (nextCall s) else nextCall s)"
  "awaiting (startRecording s) =
     (if apiKey s then (awaiting s)(nextCall s := AwaitMedia) else awaiting s)"
  by (simp_all add: startRecording_def Let_def startRecording_catch_fields)

lemma handleToggleRecording_call_fields:
  "sessionPromise (handleToggleRecording s) = sessionPromise s"
  "sent (handleToggleRecording s) = sent s"
  "k < nextCall s \<Longrightarrow> k < nextCall (handleToggleRecording s)"
  "k < nextCall s \<Longrightarrow> awaiting (handleToggleRecording s) k = awaiting s k"
  by (simp_all add: handleToggleRecording_def startRecording_call_fields stopRecording_fields)

lemma step_pending:
  assumes "pendingWith k q out s" "e \<noteq> SessionResolved k" "e \<noteq> SessionRejected k"
    and "step e s = Some s'"
  shows "pendingWith k (q @ map createBlob (frames k [e])) out s'"
proof (cases e)
  case Click
  with assms show ?thesis
    by (auto simp: pendingWith_def handleToggleRecording_call_fields split: if_splits)
next
  case Unmount
  with assms show ?thesis by (auto simp: pendingWith_def stopRecording_fields)
next
  case (StreamResolved j)
  with assms show ?thesis
    by (auto simp: pendingWith_def startRecording_gotStream_def split: if_splits)
next
  case (StreamRejected j)
  with assms show ?thesis
    by (auto simp: pendingWith_def startRecording_noStream_def startRecording_catch_fields
        split: if_splits)
next
  case (SessionResolved j)
  with assms show ?thesis
    by (auto simp: pendingWith_def startRecording_gotSession_def split: if_splits promise.splits)
next
  case (SessionRejected j)
  with assms show ?thesis
    by (auto simp: pendingWith_def startRecording_noSession_def startRecording_catch_fields
        split: if_splits)
next
  case (Open j)
  with assms show ?thesis by (auto simp: pendingWith_def onopen_def split: if_splits)
next
  case (Message j m)
  with assms show ?thesis
    by (auto simp: pendingWith_def onmessage_def split: if_splits option.splits)
next
  case (Error j m)
  with assms show ?thesis
    by (auto simp: pendingWith_def onerror_def stopRecording_fields alert_fields
        split: if_splits)
next
  case (Close j)
  with assms show ?thesis
    by (auto simp: pendingWith_def onclose_def stopRecording_fields split: if_splits)
next
  case (AudioProcess j d)
  with assms show ?thesis
    by (auto simp: pendingWith_def onaudioprocess_def Let_def split: if_splits promise.splits)
qed

lemma run_pending:
  assumes "pendingWith k q out s" "SessionResolved k \<notin> set es" "SessionRejected k \<notin> set es"
    and "run es s = Some s'"
  shows "pendingWith k (q @ map createBlob (frames k es)) out s'"
  using assms
proof (induction es arbitrary: s q)
  case Nil
  then show ?case by simp
next
  case (Cons e es)
  from Cons.prems(4) obtain t where t: "step e s = Some t" "run es t = Some s'"
    by (auto split: option.splits)
  from Cons.prems have ne: "e \<noteq> SessionResolved k" "e \<noteq> SessionRejected k" by auto
  have "pendingWith k (q @ map createBlob (frames k [e])) out t"
    by (rule step_pending [OF Cons.prems(1) ne t(1)])
  then have "pendingWith k ((q @ map createBlob (frames k [e])) @ map createBlob (frames k es)) out s'"
    using Cons.prems(2,3) t(2) by (intro Cons.IH) auto
  moreover have "frames k (e # es) = frames k [e] @ frames k es"
    by (cases e) simp_all
  ultimately show ?case by simp
qed

lemma step_fulfilled:
  assumes "fulfilledWith k out s" "step e s = Some s'"
  shows "fulfilledWith k (out @ map createBlob (frames k [e])) s'"
proof (cases e)
  case Click
  with assms show ?thesis
    by (auto simp: fulfilledWith_def handleToggleRecording_call_fields split: if_splits)
next
  case Unmount
  with assms show ?thesis by (auto simp: fulfilledWith_def stopRecording_fields)
next
  case (StreamResolved j)
  with assms show ?thesis
    by (auto simp: fulfilledWith_def startRecording_gotStream_def split: if_splits)
next
  case (StreamRejected j)
  with assms show ?thesis
    by (auto simp: fulfilledWith_def startRecording_noStream_def startRecording_catch_fields
        split: if_splits)
next
  case (SessionResolved j)
  with assms show ?thesis
    by (auto simp: fulfilledWith_def startRecording_gotSession_def split: if_splits promise.splits)
next
  case (SessionRejected j)
  with assms show ?thesis
    by (auto simp: fulfilledWith_def startRecording_noSession_def startRecording_catch_fields
        split: if_splits)
next
  case (Open j)
  with assms show ?thesis by (auto simp: fulfilledWith_def onopen_def split: if_splits)
next
  case (Message j m)
  with assms show ?thesis
    by (auto simp: fulfilledWith_def onmessage_def split: if_splits option.splits)
next
  case (Error j m)
  with assms show ?thesis
    by (auto simp: fulfilledWith_def onerror_def stopRecording_fields alert_fields
        split: if_splits)
next
  case (Close j)
  with assms show ?thesis
    by (auto simp: fulfilledWith_def onclose_def stopRecording_fields split: if_splits)
next
  case (AudioProcess j d)
  with assms show ?thesis
    by (auto simp: fulfilledWith_def onaudioprocess_def Let_def split: if_splits promise.splits)
qed

lemma run_fulfilled:
  assumes "fulfilledWith k out s" "run es s = Some s'"
  shows "fulfilledWith k (out @ map createBlob (frames k es)) s'"
  using assms
proof (induction es arbitrary: s out)
  case Nil
  then show ?case by simp
next
  case (Cons e es)
  from Cons.prems(2) obtain t where t: "step e s = Some t" "run es t = Some s'"
    by (auto split: option.splits)
  have "fulfilledWith k (out @ map createBlob (frames k [e])) t"
    by (rule step_fulfilled [OF Cons.prems(1) t(1)])
  then have "fulfilledWith k ((out @ map createBlob (frames k [e])) @ map createBlob (frames k es)) s'"
    using t(2) by (rule Cons.IH)
  moreover have "frames k (e # es) = frames k [e] @ frames k es"
    by (cases e) simp_all
  ultimately show ?case by simp
qed

lemma resolve_pending:
  assumes "pendingWith k q out s" "step (SessionResolved k) s = Some s'"
  shows "fulfilledWith k (out @ q) s'"
  using assms
  by (auto simp: pendingWith_def fulfilledWith_def startRecording_gotSession_def split: if_splits)

text \<open>
  C6. The blobs handed to the session promise of a call while it is pending are all
  sent, in the order of their production, when the promise is fulfilled, and before
  every blob produced afterwards: after any run in which the promise is fulfilled,
  what the call has sent is what it had sent, then the blobs that waited, then the
  frames produced before the fulfilment, then the frames produced after it.
\<close>

theorem pending_frames_flushed_in_order:
  assumes "k < nextCall s" "awaiting s k = AwaitSession" "sessionPromise s k = Pending q"
    and "SessionResolved k \<notin> set es" "SessionRejected k \<notin> set es"
    and "run (es @ SessionResolved k # es') s = Some s'"
  shows "sent s' k =
           sent s k @ q @ map createBlob (frames k es) @ map createBlob (frames k es')"
proof -
  from assms(6) obtain t u where t: "run es s = Some t"
    and u: "step (SessionResolved k) t = Some u" and s': "run es' u = Some s'"
    by (auto simp: run_append split: option.splits)
  have "pendingWith k q (sent s k) s" using assms(1-3) by (simp add: pendingWith_def)
  then have "pendingWith k (q @ map createBlob (frames k es)) (sent s k) t"
    using assms(4,5) t by (rule run_pending)
  then have "fulfilledWith k (sent s k @ q @ map createBlob (frames k es)) u"
    using u by (rule resolve_pending)
  then have "fulfilledWith k ((sent s k @ q @ map createBlob (frames k es))
      @ map createBlob (frames k es')) s'"
    using s' by (rule run_fulfilled)
  then show ?thesis by (simp add: fulfilledWith_def)
qed

theorem pending_frames_flushed_in_order_witness:
  "0 < nextCall openedState \<and> awaiting openedState 0 = AwaitSession \<and>
   sessionPromise openedState 0 = Pending [] \<and>
   map_option (\<lambda>s. sent s 0)
     (run [AudioProcess 0 [1 / 2], AudioProcess 0 [- 3], SessionResolved 0,
           AudioProcess 0 [0]] openedState) = Some [[16384], [- 32767], [0]]"
proof -
  have h: "0 < nextCall openedState" "awaiting openedState 0 = AwaitSession"
    "sessionPromise openedState 0 = Pending []" "sent openedState 0 = []"
    "processors openedState 0 = Connected"
    by (simp_all add: openedState_def initial_def startRecording_def
        startRecording_gotStream_def onopen_def)
  have e: "SessionResolved 0 \<notin> set [AudioProcess 0 [1 / 2], AudioProcess 0 [- 3]]"
    "SessionRejected 0 \<notin> set [AudioProcess 0 [1 / 2], AudioProcess 0 [- 3]]"
    by simp_all
  obtain s' where r: "run [AudioProcess 0 [1 / 2], AudioProcess 0 [- 3], SessionResolved 0,
           AudioProcess 0 [0]] openedState = Some s'"
    using h by (simp add: onaudioprocess_def startRecording_gotSession_def)
  then have r': "run ([AudioProcess 0 [1 / 2], AudioProcess 0 [- 3]] @ SessionResolved 0 #
           [AudioProcess 0 [0]]) openedState = Some s'"
    by (simp del: run.simps)
  have b: "createBlob [1 / 2] = [16384]" "createBlob [- 3] = [- 32767]" "createBlob [0] = [0]"
    by code_simp+
  have "sent s' 0 = [[16384], [- 32767], [0]]"
    using pending_frames_flushed_in_order [OF h(1-3) e r'] by (simp add: h(4) b)
  with h r show ?thesis by (simp del: run.simps)
qed

lemma step_attached:
  assumes "attached s" "step e s = Some s'"
  shows "attached s' \<and> (processors s' k \<noteq> NoProcessor \<longrightarrow> processors s k \<noteq> NoProcessor \<or> e = Open k)"
proof (cases e)
  case Click
  with assms show ?thesis
    by (auto simp: attached_def handleToggleRecording_def stopRecording_fields updAt_def
        startRecording_def Let_def startRecording_catch_fields split: if_splits option.splits)
next
  case Unmount
  with assms show ?thesis
    by (auto simp: attached_def stopRecording_fields updAt_def split: if_splits option.splits)
next
  case (StreamResolved j)
  with assms show ?thesis
    by (auto simp: attached_def startRecording_gotStream_def split: if_splits)
next
  case (StreamRejected j)
  with assms show ?thesis
    by (auto simp: attached_def startRecording_noStream_def startRecording_catch_fields
        updAt_def split: if_splits option.splits)
next
  case (SessionResolved j)
  with assms show ?thesis
    by (auto simp: attached_def startRecording_gotSession_def split: if_splits promise.splits)
next
  case (SessionRejected j)
  with assms show ?thesis
    by (auto simp: attached_def startRecording_noSession_def startRecording_catch_fields
        updAt_def split: if_splits option.splits)
next
  case (Open j)
  with assms show ?thesis by (auto simp: attached_def onopen_def split: if_splits)
next
  case (Message j m)
  with assms show ?thesis
    by (auto simp: attached_def onmessage_def split: if_splits option.splits)
next
  case (Error j m)
  with assms show ?thesis
    by (auto simp: attached_def onerror_def stopRecording_fields alert_fields updAt_def
        split: if_splits option.splits)
next
  case (Close j)
  with assms show ?thesis
    by (auto simp: attached_def onclose_def stopRecording_fields updAt_def
        split: if_splits option.splits)
next
  case (AudioProcess j d)
  with assms show ?thesis
    by (auto simp: attached_def onaudioprocess_def Let_def split: if_splits promise.splits)
qed

lemma run_attached:
  assumes "attached s" "run es s = Some s'"
  shows "attached s' \<and>
         (processors s' k \<noteq> NoProcessor \<longrightarrow> processors s k \<noteq> NoProcessor \<or> Open k \<in> set es)"
  using assms
proof (induction es arbitrary: s)
  case Nil
  then show ?case by simp
next
  case (Cons e es)
  from Cons.prems(2) obtain t where t: "step e s = Some t" "run es t = Some s'"
    by (auto split: option.splits)
  from step_attached [OF Cons.prems(1) t(1), of k] Cons.IH [OF _ t(2)]
  show ?case by auto
qed

lemma attached_initial: "attached ((initial key)\<lparr>strictMode := strict\<rparr>)"
  by (simp add: attached_def initial_def)

lemma step_isRecording:
  assumes "step e s = Some s'" "isRecording s'" "\<not> isRecording s"
  shows "\<exists>k. e = Open k \<and> processors s' k = Connected \<and> scriptProcessorRef s' = Some k"
  using assms
  by (cases e)
     (auto simp: handleToggleRecording_def stopRecording_fields startRecording_def Let_def
        startRecording_catch_fields startRecording_gotStream_def startRecording_noStream_def
        startRecording_gotSession_def startRecording_noSession_def onopen_def onmessage_def
        onerror_def onclose_def alert_fields onaudioprocess_def
        split: if_splits option.splits promise.splits)

text \<open>
  C7. In every run from the initial state, with or without an API key and with or
  without \<open>StrictMode\<close>, an audio frame of a call is delivered only
  after the \<open>onopen\<close> of that call, which is what creates the script processor and
  assigns its handler; and the component records only after an \<open>onopen\<close>, holding a
  connected script processor. Only \<open>onopen\<close> sets \<open>isRecording\<close>, and it does so with
  the processor attached.
\<close>

theorem frames_only_after_onopen:
  assumes "run es ((initial key)\<lparr>strictMode := strict\<rparr>) = Some s"
  shows "(\<forall>es1 k inputData es2.
            es = es1 @ AudioProcess k inputData # es2 \<longrightarrow> Open k \<in> set es1) \<and>
         (\<forall>k. processors s k \<noteq> NoProcessor \<longrightarrow> Open k \<in> set es) \<and>
         (isRecording s \<longrightarrow>
            (\<exists>k. Open k \<in> set es \<and> scriptProcessorRef s = Some k \<and>
                 processors s k = Connected)) \<and>
         (\<forall>e t t'. step e t = Some t' \<and> isRecording t' \<and> \<not> isRecording t \<longrightarrow>
            (\<exists>k. e = Open k \<and> scriptProcessorRef t' = Some k \<and> processors t' k = Connected))"
proof -
  have init: "processors ((initial key)\<lparr>strictMode := strict\<rparr>) k = NoProcessor" for k
    by (simp add: initial_def)
  have a: "Open k \<in> set es1" if "es = es1 @ AudioProcess k d # es2" for es1 k d es2
  proof -
    from assms that obtain t
      where t: "run es1 ((initial key)\<lparr>strictMode := strict\<rparr>) = Some t"
      and "step (AudioProcess k d) t \<noteq> None"
      by (auto simp: run_append split: option.splits)
    then have "processors t k \<noteq> NoProcessor" by (auto split: if_splits)
    with run_attached [OF attached_initial t, of k] init show ?thesis by simp
  qed
  have b: "Open k \<in> set es" if "processors s k \<noteq> NoProcessor" for k
    using run_attached [OF attached_initial assms, of k] init that by simp
  have c: "\<exists>k. Open k \<in> set es \<and> scriptProcessorRef s = Some k \<and> processors s k = Connected"
    if "isRecording s"
  proof -
    from run_attached [OF attached_initial assms, of 0] have "attached s" by simp
    with that obtain k where "scriptProcessorRef s = Some k" "processors s k = Connected"
      by (auto simp: attached_def)
    with b [of k] show ?thesis by simp
  qed
  from a b c step_isRecording show ?thesis by blast
qed

theorem frames_only_after_onopen_witness:
  "map_option isRecording
     (run [Click, StreamResolved 0, Open 0, AudioProcess 0 [0]] (initial True)) = Some True \<and>
   Open 0 \<in> set [Click, StreamResolved 0, Open 0] \<and>
   run [Click, StreamResolved 0, AudioProcess 0 [0]] (initial True) = None"
proof -
  obtain s where r: "run [Click, StreamResolved 0, Open 0, AudioProcess 0 [0]] (initial True) = Some s"
    and s: "isRecording s"
    by (simp add: initial_def handleToggleRecording_def startRecording_def
        startRecording_gotStream_def onopen_def onaudioprocess_def)
  have n: "run [Click, StreamResolved 0, AudioProcess 0 [0]] (initial True) = None"
    by (simp add: initial_def handleToggleRecording_def startRecording_def
        startRecording_gotStream_def)
  have "(initial True)\<lparr>strictMode := False\<rparr> = initial True"
    by (simp add: initial_def)
  with r have r': "run [Click, StreamResolved 0, Open 0, AudioProcess 0 [0]]
      ((initial True)\<lparr>strictMode := False\<rparr>) = Some s"
    by (simp only:)
  have "[Click, StreamResolved 0, Open 0, AudioProcess 0 [0]] =
        [Click, StreamResolved 0, Open 0] @ AudioProcess 0 [0] # []"
    by simp
  with frames_only_after_onopen [OF r'] have "Open 0 \<in> set [Click, StreamResolved 0, Open 0]"
    by blast
  with r s n show ?thesis by (simp del: run.simps)
qed

section \<open>The encoder\<close>

lemma encodeSample_bounds: "- 32767 \<le> encodeSample x" "encodeSample x \<le> 32767"
  by (simp_all add: encodeSample_def)

lemma sint_encodeSample: "sint (word_of_int (encodeSample x) :: 16 word) = encodeSample x"
  using encodeSample_bounds [of x]
  by (simp add: sint_sbintrunc' signed_take_bit_int_eq_self)

text \<open>
  C8. The encoder is a total function. Every encoded sample lies in [-32767, 32767];
  a sample in [-1, 1] is encoded as \<open>round (sample * 32767)\<close>; a sample at or beyond 1
  or -1 is encoded as the boundary 32767 or -32767; and the 16-bit value stored in the
  blob reads back, as a signed number, as the encoded sample: nothing wraps.
\<close>

theorem encodeSample_clamped:
  "- 32767 \<le> encodeSample x \<and> encodeSample x \<le> 32767 \<and>
   (- 1 \<le> x \<and> x \<le> 1 \<longrightarrow> encodeSample x = round (x * 32767)) \<and>
   (1 \<le> x \<longrightarrow> encodeSample x = 32767) \<and>
   (x \<le> - 1 \<longrightarrow> encodeSample x = - 32767) \<and>
   length (createBlob xs) = length xs \<and>
   (\<forall>i. i < length xs \<longrightarrow> sint (createBlob xs ! i) = encodeSample (xs ! i))"
proof -
  have r: "round (32767 :: rat) = 32767" "round (- 32767 :: rat) = - 32767"
    by simp_all
  have a: "encodeSample x = round (x * 32767)" if "- 1 \<le> x" "x \<le> 1"
  proof -
    from that have "- 32767 \<le> x * 32767" "x * 32767 \<le> 32767" by simp_all
    then have "round (- 32767 :: rat) \<le> round (x * 32767)" "round (x * 32767) \<le> round (32767 :: rat)"
      by (simp_all only: round_mono)
    then show ?thesis by (simp add: encodeSample_def r)
  qed
  have b: "encodeSample x = 32767" if "1 \<le> x"
  proof -
    from that have "32767 \<le> x * 32767" by simp
    then have "round (32767 :: rat) \<le> round (x * 32767)" by (rule round_mono)
    then show ?thesis by (simp add: encodeSample_def r)
  qed
  have c: "encodeSample x = - 32767" if "x \<le> - 1"
  proof -
    from that have "x * 32767 \<le> - 32767" by simp
    then have "round (x * 32767) \<le> round (- 32767 :: rat)" by (rule round_mono)
    then show ?thesis by (simp add: encodeSample_def r)
  qed
  show ?thesis
    by (simp add: encodeSample_bounds a b c createBlob_def sint_encodeSample)
qed

theorem encodeSample_clamped_witness:
  "encodeSample (1 / 2) = 16384 \<and> encodeSample 1 = 32767 \<and> encodeSample (3 / 2) = 32767 \<and>
   encodeSample (- 1) = - 32767 \<and> encodeSample (- 2) = - 32767 \<and>
   sint (createBlob [3 / 2, - 2] ! 1) = - 32767"
proof -
  have "round ((1 / 2 :: rat) * 32767) = 16384" by code_simp
  then show ?thesis
    using encodeSample_clamped [of "1 / 2" "[]"] encodeSample_clamped [of 1 "[]"]
      encodeSample_clamped [of "3 / 2" "[]"] encodeSample_clamped [of "- 1" "[]"]
      encodeSample_clamped [of "- 2" "[3 / 2, - 2]"]
    by simp
qed

end
